theory Spec2Isabelle
  imports Main "HOL-Library.Word" "HOL-Library.Sublist"
begin

section \<open>The voice receptionist's turn controller (server.js)\<close>

text \<open>
  One WebSocket connection of \<^verbatim>\<open>server.js\<close> owns four mutable variables
  (\<^verbatim>\<open>conversationHistory\<close>, \<^verbatim>\<open>isAiSpeaking\<close>, \<^verbatim>\<open>isInterrupted\<close> and the socket)
  and runs on a single JavaScript thread: every event handler and every continuation of
  an \<^verbatim>\<open>async\<close> function runs without interruption up to its next \<^verbatim>\<open>await\<close>.
  The model is therefore a state record and one function \<open>step\<close> that executes one
  such uninterrupted piece of code; a session is a list of events folded over the
  state. The collaborators (speech recognition, language model, speech synthesis) are
  the environment: what they return is carried by the event.
\<close>

subsection \<open>Data\<close>

text \<open>A JavaScript string is a sequence of UTF-16 code units.\<close>

type_synonym js_string = "16 word list"

text \<open>The audio payload is an opaque byte buffer (\<^verbatim>\<open>ttsResponse.audioContent\<close>).\<close>

type_synonym audio = "8 word list"

datatype role = User | Assistant

text \<open>An entry of \<^verbatim>\<open>conversationHistory\<close>: \<^verbatim>\<open>{ role: 'user', content: transcript }\<close>.\<close>

record message =
  role :: role
  content :: js_string

text \<open>
  What is passed to \<^verbatim>\<open>ws.send\<close>: the control message
  \<^verbatim>\<open>{ command: 'stop_playing' }\<close> or synthesized audio.
\<close>

datatype frame = StopPlaying | AudioContent audio

text \<open>
  A call of \<^verbatim>\<open>processTranscript\<close> that got past its first line is suspended at the
  \<^verbatim>\<open>await\<close> of the language-model call (line 59), then at the \<^verbatim>\<open>await\<close> of the
  speech synthesis of the reply (line 69), and then has returned.
\<close>

datatype stage = AwaitLLM | AwaitTTS js_string | Returned

text \<open>
  \<^verbatim>\<open>sendInitialGreeting(ws).then(...)\<close>: the greeting is suspended at its own synthesis
  call (line 181); once it has resolved, the \<^verbatim>\<open>then\<close> callback (lines 141-143) is
  queued; then the greeting is over.
\<close>

datatype greeting_stage = GreetingAwaitTTS | GreetingResolved | GreetingOver

record session =
  conversationHistory :: "message list"
  isAiSpeaking :: bool
  isInterrupted :: bool
  wsOpen :: bool
  wsSent :: "frame list"
  turns :: "stage list"
  greeting :: greeting_stage

text \<open>
  \<open>wsOpen\<close> is \<^verbatim>\<open>ws.readyState === WebSocket.OPEN\<close>, \<open>wsSent\<close> the frames given to
  \<^verbatim>\<open>ws.send\<close> so far, in order. \<open>turns ! i\<close> is where the \<open>i\<close>-th started call of
  \<^verbatim>\<open>processTranscript\<close> stands.
\<close>

text \<open>A rejected promise carries an error value; the code only logs it.\<close>

datatype error = CollaboratorError

datatype event =
    Data "js_string option" bool
  | LLMDone nat "error + js_string"
  | TTSDone nat "error + audio"
  | GreetingTTSDone "error + audio"
  | GreetingThen
  | WsClose

text \<open>
  \<open>Data transcript isFinal\<close> is a \<^verbatim>\<open>'data'\<close> event of the recognition stream, with
  \<^verbatim>\<open>data.results[0]?.alternatives[0]?.transcript\<close> (\<open>None\<close> for \<^verbatim>\<open>undefined\<close>) and
  \<^verbatim>\<open>data.results[0]?.isFinal\<close> (\<^verbatim>\<open>undefined\<close> is falsy). \<open>LLMDone i r\<close> and
  \<open>TTSDone i r\<close> settle the promise that turn \<open>i\<close> awaits, \<open>Inl\<close> for a rejection.
\<close>

subsection \<open>String.prototype.trim and truthiness\<close>

text \<open>
  ECMAScript's \<^verbatim>\<open>trim\<close> removes WhiteSpace and LineTerminator code points from both
  ends: TAB, LF, VT, FF, CR, SP, NBSP, U+1680, U+2000 to U+200A, LS, PS, U+202F, U+205F,
  U+3000 and U+FEFF.
\<close>

definition js_whitespace :: "16 word \<Rightarrow> bool" where
  "js_whitespace c =
     (c = 0x09 \<or> c = 0x0A \<or> c = 0x0B \<or> c = 0x0C \<or> c = 0x0D \<or> c = 0x20 \<or> c = 0xA0
      \<or> c = 0x1680 \<or> (0x2000 \<le> c \<and> c \<le> 0x200A) \<or> c = 0x2028 \<or> c = 0x2029
      \<or> c = 0x202F \<or> c = 0x205F \<or> c = 0x3000 \<or> c = 0xFEFF)"

definition trim :: "js_string \<Rightarrow> js_string" where
  "trim t = rev (dropWhile js_whitespace (rev (dropWhile js_whitespace t)))"

text \<open>\<^verbatim>\<open>!transcript\<close> for a string or \<^verbatim>\<open>undefined\<close>: only a non-empty string is truthy.\<close>

fun truthy :: "js_string option \<Rightarrow> bool" where
  "truthy None = False"
| "truthy (Some t) = (t \<noteq> [])"

subsection \<open>The handlers\<close>

text \<open>
  \<^verbatim>\<open>if (ws.readyState === WebSocket.OPEN) { ws.send(f); }\<close>; a send on an open socket is
  taken to succeed.
\<close>

definition sendIfOpen :: "frame \<Rightarrow> session \<Rightarrow> session" where
  "sendIfOpen f s = (if wsOpen s then s\<lparr>wsSent := wsSent s @ [f]\<rparr> else s)"

text \<open>Lines 40-49.\<close>

definition interruptAi :: "session \<Rightarrow> session" where
  "interruptAi s =
     (if isAiSpeaking s
      then sendIfOpen StopPlaying (s\<lparr>isAiSpeaking := False, isInterrupted := True\<rparr>)
      else s)"

text \<open>
  Lines 52-59: \<^verbatim>\<open>processTranscript\<close> up to its first \<^verbatim>\<open>await\<close>. The call of
  \<^verbatim>\<open>getClaudeResponse\<close> is an \<^verbatim>\<open>async\<close> function, so it cannot throw here; the new turn
  is suspended.
\<close>

definition processTranscript :: "js_string \<Rightarrow> session \<Rightarrow> session" where
  "processTranscript transcript s =
     (if trim transcript = [] then s
      else s\<lparr>conversationHistory :=
                conversationHistory s @ [\<lparr>role = User, content = transcript\<rparr>],
              isAiSpeaking := True,
              turns := turns s @ [AwaitLLM]\<rparr>)"

text \<open>Lines 102-124, the \<^verbatim>\<open>'data'\<close> handler.\<close>

definition onData :: "js_string option \<Rightarrow> bool \<Rightarrow> session \<Rightarrow> session" where
  "onData transcript isFinal s =
     (case transcript of
        None \<Rightarrow> s
      | Some t \<Rightarrow>
          if t = [] then s
          else
            let s1 = (if isAiSpeaking s then interruptAi s else s) in
            if isInterrupted s1 then
              (if isFinal then processTranscript t (s1\<lparr>isInterrupted := False\<rparr>) else s1)
            else if isFinal then processTranscript t s1
            else s1)"

text \<open>
  Lines 59-76 and 86-89: turn \<open>i\<close> resumes from the language-model call. A rejection
  lands in the \<^verbatim>\<open>catch\<close> block.
\<close>

definition resumeLLM :: "nat \<Rightarrow> error + js_string \<Rightarrow> session \<Rightarrow> session" where
  "resumeLLM i r s =
     (case r of
        Inl err \<Rightarrow> s\<lparr>isAiSpeaking := False, turns := (turns s)[i := Returned]\<rparr>
      | Inr claudeResponse \<Rightarrow>
          if \<not> isAiSpeaking s then s\<lparr>turns := (turns s)[i := Returned]\<rparr>
          else s\<lparr>conversationHistory :=
                    conversationHistory s @ [\<lparr>role = Assistant, content = claudeResponse\<rparr>],
                  turns := (turns s)[i := AwaitTTS claudeResponse]\<rparr>)"

text \<open>Lines 69-89: turn \<open>i\<close> resumes from the synthesis call.\<close>

definition resumeTTS :: "nat \<Rightarrow> error + audio \<Rightarrow> session \<Rightarrow> session" where
  "resumeTTS i r s =
     (case r of
        Inl err \<Rightarrow> s\<lparr>isAiSpeaking := False, turns := (turns s)[i := Returned]\<rparr>
      | Inr audioContent \<Rightarrow>
          if \<not> isAiSpeaking s then s\<lparr>turns := (turns s)[i := Returned]\<rparr>
          else sendIfOpen (AudioContent audioContent) (s\<lparr>turns := (turns s)[i := Returned]\<rparr>))"

text \<open>
  Lines 181-194: \<^verbatim>\<open>sendInitialGreeting\<close> resumes from its synthesis call; a rejection
  is caught and logged inside the function, which resolves either way.
\<close>

definition resumeGreeting :: "error + audio \<Rightarrow> session \<Rightarrow> session" where
  "resumeGreeting r s =
     (case r of
        Inl err \<Rightarrow> s\<lparr>greeting := GreetingResolved\<rparr>
      | Inr audioContent \<Rightarrow>
          sendIfOpen (AudioContent audioContent) (s\<lparr>greeting := GreetingResolved\<rparr>))"

text \<open>Lines 141-143, the \<^verbatim>\<open>then\<close> callback.\<close>

definition greetingThen :: "session \<Rightarrow> session" where
  "greetingThen s =
     (if isAiSpeaking s then s\<lparr>isAiSpeaking := False, greeting := GreetingOver\<rparr>
      else s\<lparr>greeting := GreetingOver\<rparr>)"

subsection \<open>Sessions\<close>

text \<open>
  An event can happen only when something waits for it: a promise is settled once, for
  the turn that awaits it.
\<close>

fun enabled :: "event \<Rightarrow> session \<Rightarrow> bool" where
  "enabled (Data transcript isFinal) s = True"
| "enabled (LLMDone i r) s = (i < length (turns s) \<and> turns s ! i = AwaitLLM)"
| "enabled (TTSDone i r) s =
     (i < length (turns s) \<and> (case turns s ! i of AwaitTTS t \<Rightarrow> True | _ \<Rightarrow> False))"
| "enabled (GreetingTTSDone r) s = (greeting s = GreetingAwaitTTS)"
| "enabled GreetingThen s = (greeting s = GreetingResolved)"
| "enabled WsClose s = wsOpen s"

fun handle :: "event \<Rightarrow> session \<Rightarrow> session" where
  "handle (Data transcript isFinal) s = onData transcript isFinal s"
| "handle (LLMDone i r) s = resumeLLM i r s"
| "handle (TTSDone i r) s = resumeTTS i r s"
| "handle (GreetingTTSDone r) s = resumeGreeting r s"
| "handle GreetingThen s = greetingThen s"
| "handle WsClose s = s\<lparr>wsOpen := False\<rparr>"

text \<open>
  An event that nothing waits for does not happen: the state stays as it is. \<open>WsClose\<close>
  is the socket leaving the \<^verbatim>\<open>OPEN\<close> state; the \<^verbatim>\<open>'data'\<close> handler is the same code whether
  or not the socket is open, so the model lets recognition results arrive after it too.
\<close>

definition step :: "event \<Rightarrow> session \<Rightarrow> session" where
  "step e s = (if enabled e s then handle e s else s)"

fun run :: "event list \<Rightarrow> session \<Rightarrow> session" where
  "run [] s = s"
| "run (e # es) s = run es (step e s)"

text \<open>\<open>feasible es s\<close>: every event of \<open>es\<close> is enabled when its turn comes.\<close>

fun feasible :: "event list \<Rightarrow> session \<Rightarrow> bool" where
  "feasible [] s = True"
| "feasible (e # es) s = (enabled e s \<and> feasible es (step e s))"

text \<open>
  Lines 35-38 and 139-140: the state in which the connection handler returns, with the
  flag set and the greeting suspended at its synthesis call.
\<close>

definition init :: session where
  "init = \<lparr>conversationHistory = [], isAiSpeaking = True, isInterrupted = False,
           wsOpen = True, wsSent = [], turns = [], greeting = GreetingAwaitTTS\<rparr>"

text \<open>The controller states of the specification, read off the two flags.\<close>

datatype controller = Idle | AgentSpeaking | Interrupted | Overlap

definition controller :: "session \<Rightarrow> controller" where
  "controller s =
     (if isAiSpeaking s then (if isInterrupted s then Overlap else AgentSpeaking)
      else (if isInterrupted s then Interrupted else Idle))"

subsection \<open>Observations on sessions\<close>

text \<open>How often the stop-playing signal has been sent on the outbound channel.\<close>

definition stops :: "session \<Rightarrow> nat" where
  "stops s = length (filter (\<lambda>f. f = StopPlaying) (wsSent s))"

text \<open>The states a session passes through, one after each event.\<close>

fun states :: "event list \<Rightarrow> session \<Rightarrow> session list" where
  "states [] s = []"
| "states (e # es) s = step e s # states es (step e s)"

text \<open>How often the controller enters \<open>Interrupted\<close> along a sequence of states.\<close>

fun interruptions :: "session \<Rightarrow> session list \<Rightarrow> nat" where
  "interruptions s [] = 0"
| "interruptions s (s' # ss) =
     (if controller s \<noteq> Interrupted \<and> controller s' = Interrupted then 1 else 0)
     + interruptions s' ss"

text \<open>A run of partial (interim) recognition results.\<close>

definition partials :: "js_string option list \<Rightarrow> event list" where
  "partials ts = map (\<lambda>t. Data t False) ts"

text \<open>Every event except a final recognition result.\<close>

fun notFinal :: "event \<Rightarrow> bool" where
  "notFinal (Data t isFinal) = (\<not> isFinal)"
| "notFinal e = True"

text \<open>A recognition result without text: \<^verbatim>\<open>undefined\<close> or the empty string.\<close>

fun textless :: "event \<Rightarrow> bool" where
  "textless (Data t isFinal) = (\<not> truthy t)"
| "textless e = False"

text \<open>
  How many calls of \<^verbatim>\<open>processTranscript\<close> are past the language-model stage and have
  not returned: they have pushed their reply and wait for its synthesis.
\<close>

definition activePastStage1 :: "session \<Rightarrow> nat" where
  "activePastStage1 s =
     length (filter (\<lambda>st. case st of AwaitTTS r \<Rightarrow> True | _ \<Rightarrow> False) (turns s))"




text \<open>
  A turn that waits for the synthesis of a reply has pushed that reply (line 67 comes
  before line 69).
\<close>

fun recorded :: "message list \<Rightarrow> stage \<Rightarrow> bool" where
  "recorded h (AwaitTTS r) = (\<lparr>role = Assistant, content = r\<rparr> \<in> set h)"
| "recorded h st = True"

definition repliesRecorded :: "session \<Rightarrow> bool" where
  "repliesRecorded s = list_all (recorded (conversationHistory s)) (turns s)"

subsection \<open>Example sessions\<close>

text \<open>The strings "hi", "no", "ok" and "yes"; a greeting that is synthesized and sent.\<close>

definition utteranceA :: js_string where "utteranceA = [0x68, 0x69]"
definition utteranceB :: js_string where "utteranceB = [0x6E, 0x6F]"
definition replyA :: js_string where "replyA = [0x6F, 0x6B]"
definition replyB :: js_string where "replyB = [0x79, 0x65, 0x73]"

definition greeted :: "event list" where
  "greeted = [GreetingTTSDone (Inr [0x47]), GreetingThen]"

text \<open>A greeting whose synthesis fails.\<close>

definition greetingFailed :: "event list" where
  "greetingFailed = [GreetingTTSDone (Inl CollaboratorError), GreetingThen]"

text \<open>After the greeting the caller says "hi": turn 0 waits for the language model.\<close>

definition turnStarted :: "event list" where
  "turnStarted = greeted @ [Data (Some utteranceA) True]"

text \<open>The language model answers "ok": turn 0 has pushed it and waits for its synthesis.\<close>

definition replyAppended :: "event list" where
  "replyAppended = turnStarted @ [LLMDone 0 (Inr replyA)]"

text \<open>
  While turn 0 waits for the language model, a final "no" arrives; then both language-model
  calls answer.
\<close>

definition overlapTrace :: "event list" where
  "overlapTrace = turnStarted @
     [Data (Some utteranceB) True, LLMDone 0 (Inr replyA), LLMDone 1 (Inr replyB)]"

text \<open>
  While turn 0 waits for the language model, the caller starts to speak (a partial result)
  and finishes (a final result); then turn 0's language-model call and synthesis answer.
\<close>

definition supersededA :: "event list" where
  "supersededA = turnStarted @
     [Data (Some utteranceB) False, Data (Some utteranceB) True,
      LLMDone 0 (Inr replyA), TTSDone 0 (Inr [0x01])]"

text \<open>The same, with the caller speaking while turn 0 waits for the synthesis.\<close>

definition supersededB :: "event list" where
  "supersededB = turnStarted @
     [LLMDone 0 (Inr replyA), Data (Some utteranceB) True, TTSDone 0 (Inr [0x01])]"

text \<open>The caller says "hi" before the greeting has been synthesized.\<close>

definition greetingRace :: "event list" where
  "greetingRace =
     [Data (Some utteranceA) True, GreetingTTSDone (Inr [0x47]), GreetingThen,
      LLMDone 0 (Inr replyA)]"





section \<open>Properties\<close>

lemmas handler_defs = onData_def interruptAi_def processTranscript_def sendIfOpen_def
  resumeLLM_def resumeTTS_def resumeGreeting_def greetingThen_def

lemmas example_defs = utteranceA_def utteranceB_def replyA_def replyB_def greeted_def
  greetingFailed_def turnStarted_def replyAppended_def overlapTrace_def supersededA_def supersededB_def greetingRace_def

lemmas eval_defs = example_defs step_def init_def handler_defs trim_def js_whitespace_def

subsection \<open>Basic facts\<close>

lemma controller_Idle:
  "(controller s = Idle) = (\<not> isAiSpeaking s \<and> \<not> isInterrupted s)"
  by (simp add: controller_def)

lemma controller_Interrupted:
  "(controller s = Interrupted) = (\<not> isAiSpeaking s \<and> isInterrupted s)"
  by (simp add: controller_def)

lemma controller_AgentSpeaking:
  "(controller s = AgentSpeaking) = (isAiSpeaking s \<and> \<not> isInterrupted s)"
  by (simp add: controller_def)

lemma run_append: "run (es @ es') s = run es' (run es s)"
  by (induction es arbitrary: s) simp_all

lemma dropWhile_all: "(\<forall>x\<in>set (dropWhile P xs). P x) = (\<forall>x\<in>set xs. P x)"
  by (induction xs) auto

text \<open>\<^verbatim>\<open>!transcript.trim()\<close> holds exactly of the strings made of whitespace only.\<close>

lemma trim_blank: "(trim t = []) = (\<forall>c\<in>set t. js_whitespace c)"
  by (simp add: trim_def dropWhile_all)

lemma trim_nonempty: "trim t \<noteq> [] \<Longrightarrow> t \<noteq> []"
  by (auto simp: trim_def)

lemma list_all_update:
  "list_all P xs \<Longrightarrow> P x \<Longrightarrow> list_all P (xs[i := x])"
  using set_update_subset_insert [of xs i x] by (auto simp: list_all_iff)

text \<open>The example sessions, evaluated.\<close>

lemma run_greeted:
  "run greeted init =
     \<lparr>conversationHistory = [], isAiSpeaking = False, isInterrupted = False,
      wsOpen = True, wsSent = [AudioContent [0x47]], turns = [], greeting = GreetingOver\<rparr>"
  by (simp add: eval_defs)


lemma run_turnStarted:
  "run turnStarted init =
     \<lparr>conversationHistory = [\<lparr>role = User, content = utteranceA\<rparr>], isAiSpeaking = True,
      isInterrupted = False, wsOpen = True, wsSent = [AudioContent [0x47]],
      turns = [AwaitLLM], greeting = GreetingOver\<rparr>"
  by (simp add: eval_defs)

lemma run_replyAppended:
  "run replyAppended init =
     \<lparr>conversationHistory =
        [\<lparr>role = User, content = utteranceA\<rparr>, \<lparr>role = Assistant, content = replyA\<rparr>],
      isAiSpeaking = True, isInterrupted = False, wsOpen = True,
      wsSent = [AudioContent [0x47]], turns = [AwaitTTS replyA], greeting = GreetingOver\<rparr>"
  by (simp add: eval_defs)

subsection \<open>The two flags exclude each other\<close>

lemma step_flags:
  "\<not> (isAiSpeaking s \<and> isInterrupted s) \<Longrightarrow>
   \<not> (isAiSpeaking (step e s) \<and> isInterrupted (step e s))"
  by (cases e) (auto simp: step_def handler_defs Let_def split: option.splits sum.splits)

lemma run_flags:
  "\<not> (isAiSpeaking s \<and> isInterrupted s) \<Longrightarrow>
   \<not> (isAiSpeaking (run es s) \<and> isInterrupted (run es s))"
proof (induction es arbitrary: s)
  case Nil
  then show ?case by simp
next
  case (Cons e es)
  from Cons.prems have "\<not> (isAiSpeaking (step e s) \<and> isInterrupted (step e s))"
    by (rule step_flags)
  then show ?case using Cons.IH by simp
qed

text \<open>
  C10. After any sequence of events from the start of a session, that is in every state
  seen between two handlers or at a suspension point of the pipeline, \<open>isAiSpeaking\<close>
  and \<open>isInterrupted\<close> are not both true.
\<close>

theorem flags_exclusive:
  "\<not> (isAiSpeaking (run es init) \<and> isInterrupted (run es init))"
  by (rule run_flags) (simp add: init_def)

theorem flags_exclusive_witness:
  "controller (run [Data (Some utteranceA) False] init) = Interrupted
   \<and> \<not> (isAiSpeaking (run [Data (Some utteranceA) False] init)
        \<and> isInterrupted (run [Data (Some utteranceA) False] init))"
  using flags_exclusive [of "[Data (Some utteranceA) False]"]
  by (simp add: eval_defs controller_def)

subsection \<open>The history only grows\<close>

lemma step_history:
  "prefix (conversationHistory s) (conversationHistory (step e s))"
  by (cases e) (auto simp: step_def handler_defs Let_def split: option.splits sum.splits)

lemma run_history: "prefix (conversationHistory s) (conversationHistory (run es s))"
proof (induction es arbitrary: s)
  case Nil
  show ?case by simp
next
  case (Cons e es)
  have "prefix (conversationHistory s) (conversationHistory (step e s))"
    by (rule step_history)
  also have "prefix (conversationHistory (step e s))
               (conversationHistory (run es (step e s)))"
    by (rule Cons.IH)
  finally show ?case by simp
qed

text \<open>
  C8. Whatever events a session sees, from whatever state, the history before is a
  prefix of the history after: entries are appended at the end, and no entry is
  reordered, overwritten or removed.
\<close>

theorem history_append_only:
  "prefix (conversationHistory s) (conversationHistory (run es s))"
  by (rule run_history)

theorem history_append_only_witness:
  "prefix (conversationHistory init)
     (conversationHistory (run [Data (Some utteranceA) True, LLMDone 0 (Inr replyA)] init))
   \<and> length (conversationHistory
        (run [Data (Some utteranceA) True, LLMDone 0 (Inr replyA)] init)) = 2"
  using history_append_only [of init "[Data (Some utteranceA) True, LLMDone 0 (Inr replyA)]"]
  by (simp add: eval_defs)

subsection \<open>Interruption by partial results\<close>

lemma partial_interrupted:
  "controller s = Interrupted \<Longrightarrow> step (Data t False) s = s"
  by (auto simp: step_def controller_def handler_defs Let_def split: option.splits if_splits)

lemma partial_speaking:
  "controller s = AgentSpeaking \<Longrightarrow> truthy t \<Longrightarrow> step (Data t False) s = interruptAi s"
  by (cases t) (auto simp: step_def controller_def handler_defs Let_def split: option.splits if_splits)

lemma partial_falsy: "\<not> truthy t \<Longrightarrow> step (Data t f) s = s"
  by (cases t) (auto simp: step_def onData_def)

lemma interruptAi_controller:
  "controller s = AgentSpeaking \<Longrightarrow> controller (interruptAi s) = Interrupted"
  by (auto simp: controller_def interruptAi_def sendIfOpen_def split: if_splits)

lemma run_partials_interrupted:
  "controller s = Interrupted \<Longrightarrow> run (partials ts) s = s"
  by (induction ts) (simp_all add: partials_def partial_interrupted)

lemma interruptions_partials_interrupted:
  "controller s = Interrupted \<Longrightarrow> interruptions s (states (partials ts) s) = 0"
  by (induction ts) (simp_all add: partials_def partial_interrupted)

lemma run_partials_speaking:
  "controller s = AgentSpeaking \<Longrightarrow>
   run (partials ts) s = (if \<exists>t\<in>set ts. truthy t then interruptAi s else s)"
proof (induction ts)
  case Nil
  then show ?case by (simp add: partials_def)
next
  case (Cons t ts)
  show ?case
  proof (cases "truthy t")
    case True
    with Cons.prems have "step (Data t False) s = interruptAi s"
      by (simp add: partial_speaking)
    moreover have "controller (interruptAi s) = Interrupted"
      using Cons.prems by (rule interruptAi_controller)
    ultimately show ?thesis
      using True run_partials_interrupted [of "interruptAi s" ts] by (simp add: partials_def)
  next
    case False
    then have "step (Data t False) s = s" by (rule partial_falsy)
    then show ?thesis using False Cons by (simp add: partials_def)
  qed
qed

lemma interruptions_partials_speaking:
  "controller s = AgentSpeaking \<Longrightarrow>
   interruptions s (states (partials ts) s) = (if \<exists>t\<in>set ts. truthy t then 1 else 0)"
proof (induction ts)
  case Nil
  then show ?case by (simp add: partials_def)
next
  case (Cons t ts)
  show ?case
  proof (cases "truthy t")
    case True
    with Cons.prems have "step (Data t False) s = interruptAi s"
      by (simp add: partial_speaking)
    moreover have "controller (interruptAi s) = Interrupted"
      using Cons.prems by (rule interruptAi_controller)
    ultimately show ?thesis
      using True Cons.prems interruptions_partials_interrupted [of "interruptAi s" ts]
      by (simp add: partials_def)
  next
    case False
    then have "step (Data t False) s = s" by (rule partial_falsy)
    then show ?thesis using False Cons by (simp add: partials_def)
  qed
qed

lemma stops_interruptAi: "stops (interruptAi s) \<le> stops s + 1"
  by (simp add: stops_def interruptAi_def sendIfOpen_def)

lemma interruptAi_idem: "interruptAi (interruptAi s) = interruptAi s"
  by (simp add: interruptAi_def sendIfOpen_def)

text \<open>With completions of pending work interleaved.\<close>

lemma notFinal_silent:
  "notFinal e \<Longrightarrow> \<not> isAiSpeaking s \<Longrightarrow>
   \<not> isAiSpeaking (step e s) \<and> stops (step e s) = stops s \<and> isInterrupted (step e s) = isInterrupted s"
  by (cases e) (auto simp: step_def stops_def handler_defs Let_def split: option.splits sum.splits)

lemma notFinal_speaking:
  "notFinal e \<Longrightarrow> isAiSpeaking s \<Longrightarrow> \<not> isInterrupted s \<Longrightarrow>
   stops (step e s) \<le> stops s + 1 \<and>
   (isAiSpeaking (step e s) \<longrightarrow> stops (step e s) = stops s \<and> \<not> isInterrupted (step e s))"
  by (cases e) (auto simp: step_def stops_def handler_defs Let_def split: option.splits sum.splits)

lemma run_notFinal_silent:
  "list_all notFinal es \<Longrightarrow> \<not> isAiSpeaking s \<Longrightarrow>
   stops (run es s) = stops s \<and> interruptions s (states es s) = 0"
proof (induction es arbitrary: s)
  case Nil
  then show ?case by simp
next
  case (Cons e es)
  then have e: "notFinal e" and es: "list_all notFinal es" by simp_all
  from notFinal_silent [OF e Cons.prems(2)]
  have 1: "\<not> isAiSpeaking (step e s)" and 2: "stops (step e s) = stops s"
    and 3: "isInterrupted (step e s) = isInterrupted s" by simp_all
  have "controller (step e s) = controller s"
    using 1 3 Cons.prems(2) by (simp add: controller_def)
  with Cons.IH [OF es 1] 2 show ?case by simp
qed

lemma run_notFinal_speaking:
  "list_all notFinal es \<Longrightarrow> isAiSpeaking s \<Longrightarrow> \<not> isInterrupted s \<Longrightarrow>
   stops (run es s) \<le> stops s + 1 \<and> interruptions s (states es s) \<le> 1"
proof (induction es arbitrary: s)
  case Nil
  then show ?case by simp
next
  case (Cons e es)
  then have e: "notFinal e" and es: "list_all notFinal es" by simp_all
  note st = notFinal_speaking [OF e Cons.prems(2,3)]
  show ?case
  proof (cases "isAiSpeaking (step e s)")
    case True
    with st have "stops (step e s) = stops s" and ni: "\<not> isInterrupted (step e s)" by simp_all
    moreover have "controller (step e s) \<noteq> Interrupted"
      using True by (simp add: controller_def)
    ultimately show ?thesis using Cons.IH [OF es True ni] by simp
  next
    case False
    from run_notFinal_silent [OF es False] st show ?thesis by simp
  qed
qed

text \<open>
  C4. From \<open>AgentSpeaking\<close>, a sequence of partial results is handled as follows: if one
  of them has text, the session ends in the state that one call of \<^verbatim>\<open>interruptAi\<close>
  produces, however many partial results there are, and the controller has entered
  \<open>Interrupted\<close> exactly once (not at all if none has text); the stop-playing signal is
  sent at most once; in the interrupted state the flag is cleared, and both a further
  \<^verbatim>\<open>interruptAi\<close> and a further partial result leave the whole state unchanged. At most
  one stop signal and one entry into \<open>Interrupted\<close> also hold when completions of pending
  work are interleaved with the partial results.
\<close>

theorem cancel_once:
  "controller s = AgentSpeaking \<Longrightarrow>
   run (partials ts) s = (if \<exists>t\<in>set ts. truthy t then interruptAi s else s)
   \<and> interruptions s (states (partials ts) s) = (if \<exists>t\<in>set ts. truthy t then 1 else 0)
   \<and> stops (run (partials ts) s) \<le> stops s + 1
   \<and> controller (interruptAi s) = Interrupted
   \<and> \<not> isAiSpeaking (interruptAi s)
   \<and> interruptAi (interruptAi s) = interruptAi s
   \<and> step (Data u False) (interruptAi s) = interruptAi s
   \<and> (list_all notFinal es \<longrightarrow>
        stops (run es s) \<le> stops s + 1 \<and> interruptions s (states es s) \<le> 1)"
proof (intro conjI impI)
  assume a: "controller s = AgentSpeaking"
  then have i: "controller (interruptAi s) = Interrupted"
    by (rule interruptAi_controller)
  show "run (partials ts) s = (if \<exists>t\<in>set ts. truthy t then interruptAi s else s)"
    using a by (rule run_partials_speaking)
  then show "stops (run (partials ts) s) \<le> stops s + 1"
    using stops_interruptAi [of s] by simp
  show "interruptions s (states (partials ts) s) = (if \<exists>t\<in>set ts. truthy t then 1 else 0)"
    using a by (rule interruptions_partials_speaking)
  show "controller (interruptAi s) = Interrupted" by (rule i)
  then show "\<not> isAiSpeaking (interruptAi s)" by (simp add: controller_Interrupted)
  show "interruptAi (interruptAi s) = interruptAi s" by (rule interruptAi_idem)
  show "step (Data u False) (interruptAi s) = interruptAi s"
    using i by (rule partial_interrupted)
next
  assume a: "controller s = AgentSpeaking" and n: "list_all notFinal es"
  from a have "isAiSpeaking s" and "\<not> isInterrupted s"
    by (simp_all add: controller_AgentSpeaking)
  with n have "stops (run es s) \<le> stops s + 1 \<and> interruptions s (states es s) \<le> 1"
    by (rule run_notFinal_speaking)
  then show "stops (run es s) \<le> stops s + 1" and "interruptions s (states es s) \<le> 1"
    by simp_all
qed

theorem cancel_once_witness:
  "controller (run turnStarted init) = AgentSpeaking
   \<and> run (partials [None, Some utteranceB, Some utteranceB, Some []]) (run turnStarted init)
       = (run turnStarted init)
           \<lparr>isAiSpeaking := False, isInterrupted := True,
            wsSent := [AudioContent [0x47], StopPlaying]\<rparr>
   \<and> interruptions (run turnStarted init)
        (states (partials [None, Some utteranceB, Some utteranceB, Some []])
           (run turnStarted init)) = 1
   \<and> stops (run (partials [None, Some utteranceB, Some utteranceB, Some []])
               (run turnStarted init)) = 1"
proof -
  have c: "controller (run turnStarted init) = AgentSpeaking"
    by (simp add: run_turnStarted controller_def)
  have i: "interruptAi (run turnStarted init) =
      (run turnStarted init)
        \<lparr>isAiSpeaking := False, isInterrupted := True,
         wsSent := [AudioContent [0x47], StopPlaying]\<rparr>"
    by (simp add: run_turnStarted interruptAi_def sendIfOpen_def)
  have "stops (interruptAi (run turnStarted init)) = 1"
    by (simp add: run_turnStarted interruptAi_def sendIfOpen_def stops_def)
  with c i show ?thesis
    using cancel_once [OF c, of "[None, Some utteranceB, Some utteranceB, Some []]"]
    by (simp add: utteranceB_def)
qed

subsection \<open>Results without usable text\<close>

text \<open>
  C3, as the code has it. A recognition result whose text is absent or empty is dropped
  in every state: nothing changes at all. A result whose text is whitespace only adds
  nothing to the history and starts no turn.
\<close>

theorem unusable_text:
  "(\<not> truthy t \<longrightarrow> step (Data t isFinal) s = s)
   \<and> (trim u = [] \<longrightarrow>
        conversationHistory (step (Data (Some u) isFinal) s) = conversationHistory s
        \<and> turns (step (Data (Some u) isFinal) s) = turns s)"
  by (cases t) (auto simp: step_def handler_defs Let_def)

theorem unusable_text_witness:
  "\<not> truthy None \<and> step (Data None True) (run turnStarted init) = run turnStarted init
   \<and> trim [0x20, 0x0A] = []
   \<and> conversationHistory (step (Data (Some [0x20, 0x0A]) True) (run turnStarted init))
       = [\<lparr>role = User, content = utteranceA\<rparr>]
   \<and> turns (step (Data (Some [0x20, 0x0A]) True) (run turnStarted init)) = [AwaitLLM]"
proof -
  have t: "trim [0x20, 0x0A] = []"
    by (simp add: trim_def js_whitespace_def)
  have h: "conversationHistory (run turnStarted init) = [\<lparr>role = User, content = utteranceA\<rparr>]"
    and u: "turns (run turnStarted init) = [AwaitLLM]"
    by (simp_all add: run_turnStarted)
  from t h u show ?thesis
    using unusable_text [of None True "run turnStarted init" "[0x20, 0x0A]"]
    by simp
qed

text \<open>
  C3 as it is stated fails for text made of whitespace: a partial result " " that
  arrives while the agent speaks (here during the greeting) is not dropped. The
  controller goes to \<open>Interrupted\<close> and the stop-playing signal is sent; a final " " then
  takes the controller from \<open>Interrupted\<close> to \<open>Idle\<close>.
\<close>

theorem whitespace_interrupts:
  "trim [0x20] = []
   \<and> controller init = AgentSpeaking
   \<and> controller (step (Data (Some [0x20]) False) init) = Interrupted
   \<and> wsSent (step (Data (Some [0x20]) False) init) = [StopPlaying]
   \<and> controller (step (Data (Some [0x20]) True) (step (Data (Some [0x20]) False) init)) = Idle"
  by (simp add: eval_defs controller_def)

subsection \<open>Final results start turns\<close>

lemma final_idle:
  assumes "trim t \<noteq> []" and "controller s = Idle"
  shows "step (Data (Some t) True) s =
        s\<lparr>conversationHistory := conversationHistory s @ [\<lparr>role = User, content = t\<rparr>],
          isAiSpeaking := True, turns := turns s @ [AwaitLLM]\<rparr>"
proof -
  from assms(2) have "\<not> isAiSpeaking s" and "\<not> isInterrupted s"
    by (simp_all add: controller_Idle)
  then show ?thesis
    using assms(1) trim_nonempty [OF assms(1)]
    by (simp add: step_def onData_def processTranscript_def)
qed

lemma final_interrupted:
  assumes "trim t \<noteq> []" and "controller s = Interrupted"
  shows "step (Data (Some t) True) s =
        s\<lparr>conversationHistory := conversationHistory s @ [\<lparr>role = User, content = t\<rparr>],
          isAiSpeaking := True, isInterrupted := False, turns := turns s @ [AwaitLLM]\<rparr>"
proof -
  from assms(2) have "\<not> isAiSpeaking s" and "isInterrupted s"
    by (simp_all add: controller_Interrupted)
  then show ?thesis
    using assms(1) trim_nonempty [OF assms(1)]
    by (simp add: step_def onData_def processTranscript_def)
qed

text \<open>In every state a final result with text that is not blank starts a turn.\<close>

lemma final_starts_turn:
  assumes "trim t \<noteq> []"
  shows "turns (step (Data (Some t) True) s) = turns s @ [AwaitLLM]
         \<and> conversationHistory (step (Data (Some t) True) s)
             = conversationHistory s @ [\<lparr>role = User, content = t\<rparr>]"
  using assms trim_nonempty [OF assms]
  by (simp add: step_def handler_defs Let_def)

text \<open>
  C5. A final result whose text is not blank, handled in \<open>Idle\<close>, pushes the caller's
  utterance once, sets the flag and starts one turn, and changes nothing else. Handled in
  \<open>Interrupted\<close> it does the same and clears \<open>isInterrupted\<close>. Either way the controller
  is in \<open>AgentSpeaking\<close> afterwards.
\<close>

theorem final_result_starts_turn:
  "trim t \<noteq> [] \<Longrightarrow>
   (controller s = Idle \<longrightarrow>
      step (Data (Some t) True) s =
        s\<lparr>conversationHistory := conversationHistory s @ [\<lparr>role = User, content = t\<rparr>],
          isAiSpeaking := True, turns := turns s @ [AwaitLLM]\<rparr>)
   \<and> (controller s = Interrupted \<longrightarrow>
      step (Data (Some t) True) s =
        s\<lparr>conversationHistory := conversationHistory s @ [\<lparr>role = User, content = t\<rparr>],
          isAiSpeaking := True, isInterrupted := False, turns := turns s @ [AwaitLLM]\<rparr>)
   \<and> (controller s = Idle \<or> controller s = Interrupted \<longrightarrow>
        controller (step (Data (Some t) True) s) = AgentSpeaking)"
proof (intro conjI impI)
  assume t: "trim t \<noteq> []" and c: "controller s = Idle \<or> controller s = Interrupted"
  from c show "controller (step (Data (Some t) True) s) = AgentSpeaking"
  proof
    assume i: "controller s = Idle"
    then show ?thesis
      by (simp add: final_idle [OF t i] controller_AgentSpeaking controller_Idle)
  next
    assume i: "controller s = Interrupted"
    then show ?thesis
      by (simp add: final_interrupted [OF t i] controller_AgentSpeaking)
  qed
qed (simp_all add: final_idle final_interrupted)

theorem final_result_starts_turn_witness:
  "trim utteranceA \<noteq> []
   \<and> controller (run greeted init) = Idle
   \<and> conversationHistory (step (Data (Some utteranceA) True) (run greeted init))
       = [\<lparr>role = User, content = utteranceA\<rparr>]
   \<and> turns (step (Data (Some utteranceA) True) (run greeted init)) = [AwaitLLM]
   \<and> controller (step (Data (Some utteranceA) True) (run greeted init)) = AgentSpeaking
   \<and> controller (run (turnStarted @ [Data (Some utteranceB) False]) init) = Interrupted
   \<and> controller (step (Data (Some utteranceA) True)
        (run (turnStarted @ [Data (Some utteranceB) False]) init)) = AgentSpeaking"
proof -
  have t: "trim utteranceA \<noteq> []"
    by (simp add: utteranceA_def trim_def js_whitespace_def)
  have c: "controller (run greeted init) = Idle"
    by (simp add: run_greeted controller_def)
  have h: "conversationHistory (run greeted init) = []" and u: "turns (run greeted init) = []"
    by (simp_all add: run_greeted)
  have i: "controller (run (turnStarted @ [Data (Some utteranceB) False]) init) = Interrupted"
    by (simp add: run_append run_turnStarted step_def handler_defs controller_def utteranceB_def)
  from c final_result_starts_turn [OF t, of "run greeted init"]
  have a: "step (Data (Some utteranceA) True) (run greeted init) =
      (run greeted init)
        \<lparr>conversationHistory :=
           conversationHistory (run greeted init) @ [\<lparr>role = User, content = utteranceA\<rparr>],
         isAiSpeaking := True, turns := turns (run greeted init) @ [AwaitLLM]\<rparr>"
    and b: "controller (step (Data (Some utteranceA) True) (run greeted init)) = AgentSpeaking"
    by blast+
  from i final_result_starts_turn
    [OF t, of "run (turnStarted @ [Data (Some utteranceB) False]) init"]
  have d: "controller (step (Data (Some utteranceA) True)
        (run (turnStarted @ [Data (Some utteranceB) False]) init)) = AgentSpeaking"
    by blast
  have "conversationHistory (step (Data (Some utteranceA) True) (run greeted init))
       = [\<lparr>role = User, content = utteranceA\<rparr>]"
    and "turns (step (Data (Some utteranceA) True) (run greeted init)) = [AwaitLLM]"
    unfolding a by (simp_all add: h u)
  with t c b i d show ?thesis by blast
qed

subsection \<open>What the effects of the pipeline depend on\<close>










subsection \<open>Failing collaborators\<close>

lemma recorded_append: "recorded h st \<Longrightarrow> recorded (h @ ys) st"
  by (cases st) auto

lemma list_all_recorded_append:
  "list_all (recorded h) sts \<Longrightarrow> list_all (recorded (h @ ys)) sts"
  by (auto simp: list_all_iff intro: recorded_append)

lemma list_all_recorded_reply:
  "list_all (recorded h) sts \<Longrightarrow>
   list_all (recorded (h @ [\<lparr>role = Assistant, content = b\<rparr>])) (sts[i := AwaitTTS b])"
  by (rule list_all_update) (simp_all add: list_all_recorded_append)

lemma repliesRecorded_step: "repliesRecorded s \<Longrightarrow> repliesRecorded (step e s)"
proof (cases e)
  case (Data t f)
  assume "repliesRecorded s"
  then show ?thesis
    unfolding Data
    by (cases t)
       (auto simp: repliesRecorded_def step_def handler_defs Let_def
             intro: list_all_recorded_append)
next
  case (LLMDone i r)
  assume "repliesRecorded s"
  then show ?thesis
    unfolding LLMDone
    by (cases r)
       (auto simp: repliesRecorded_def step_def handler_defs
             intro: list_all_update list_all_recorded_reply)
next
  case (TTSDone i r)
  assume "repliesRecorded s"
  then show ?thesis
    unfolding TTSDone
    by (cases r)
       (auto simp: repliesRecorded_def step_def handler_defs intro!: list_all_update)
next
  case (GreetingTTSDone r)
  assume "repliesRecorded s"
  then show ?thesis
    unfolding GreetingTTSDone
    by (cases r) (auto simp: repliesRecorded_def step_def handler_defs)
next
  case GreetingThen
  assume "repliesRecorded s"
  then show ?thesis
    unfolding GreetingThen by (auto simp: repliesRecorded_def step_def handler_defs)
next
  case WsClose
  assume "repliesRecorded s"
  then show ?thesis
    unfolding WsClose by (auto simp: repliesRecorded_def step_def)
qed

lemma repliesRecorded_run: "repliesRecorded s \<Longrightarrow> repliesRecorded (run es s)"
  by (induction es arbitrary: s) (simp_all add: repliesRecorded_step)

lemma repliesRecorded_init: "repliesRecorded init"
  by (simp add: repliesRecorded_def init_def)

text \<open>In a session, the reply whose synthesis a turn awaits is in the history.\<close>

lemma awaited_reply_recorded:
  assumes "i < length (turns (run es init))" and "turns (run es init) ! i = AwaitTTS reply"
  shows "\<lparr>role = Assistant, content = reply\<rparr> \<in> set (conversationHistory (run es init))"
proof -
  have "repliesRecorded (run es init)"
    by (rule repliesRecorded_run) (rule repliesRecorded_init)
  then have "recorded (conversationHistory (run es init)) (turns (run es init) ! i)"
    using assms(1) by (simp add: repliesRecorded_def list_all_length)
  then show ?thesis by (simp add: assms(2))
qed

lemma llm_failure:
  "enabled (LLMDone i (Inl err)) s \<Longrightarrow>
   step (LLMDone i (Inl err)) s = s\<lparr>isAiSpeaking := False, turns := (turns s)[i := Returned]\<rparr>"
  by (simp add: step_def resumeLLM_def)

lemma tts_failure:
  "enabled (TTSDone i (Inl err)) s \<Longrightarrow>
   step (TTSDone i (Inl err)) s = s\<lparr>isAiSpeaking := False, turns := (turns s)[i := Returned]\<rparr>"
  by (simp add: step_def resumeTTS_def)

lemma tts_failure_keeps_reply:
  assumes "enabled (TTSDone i (Inl err)) (run es init)"
  shows "\<exists>reply. turns (run es init) ! i = AwaitTTS reply
           \<and> \<lparr>role = Assistant, content = reply\<rparr>
               \<in> set (conversationHistory (run es' (step (TTSDone i (Inl err)) (run es init))))"
proof -
  from assms have l: "i < length (turns (run es init))" by simp
  from assms obtain reply where r: "turns (run es init) ! i = AwaitTTS reply"
    by (auto split: stage.splits)
  have "\<lparr>role = Assistant, content = reply\<rparr> \<in> set (conversationHistory (run es init))"
    using l r by (rule awaited_reply_recorded)
  then have "\<lparr>role = Assistant, content = reply\<rparr>
               \<in> set (conversationHistory (step (TTSDone i (Inl err)) (run es init)))"
    by (simp add: tts_failure [OF assms])
  moreover have "set (conversationHistory (step (TTSDone i (Inl err)) (run es init)))
                   \<subseteq> set (conversationHistory (run es' (step (TTSDone i (Inl err)) (run es init))))"
    by (rule set_mono_prefix) (rule run_history)
  ultimately show ?thesis using r by auto
qed

text \<open>
  C7. When the language-model call of turn \<open>i\<close> is rejected, the turn returns, the flag
  is cleared, and the history, the frames sent and the socket are as before: nothing is
  pushed for the failed reply and nothing reaches the caller. When the synthesis call is
  rejected, the same holds; the reply that the turn had pushed before the synthesis is in
  the history, and stays there whatever happens later in the session. After either
  failure the session goes on: the next final result with text starts a turn.
\<close>

theorem collaborator_failure:
  "(enabled (LLMDone i (Inl err)) s \<longrightarrow>
      conversationHistory (step (LLMDone i (Inl err)) s) = conversationHistory s
      \<and> wsSent (step (LLMDone i (Inl err)) s) = wsSent s
      \<and> wsOpen (step (LLMDone i (Inl err)) s) = wsOpen s
      \<and> \<not> isAiSpeaking (step (LLMDone i (Inl err)) s)
      \<and> turns (step (LLMDone i (Inl err)) s) = (turns s)[i := Returned])
   \<and> (enabled (TTSDone i (Inl err)) s \<longrightarrow>
      conversationHistory (step (TTSDone i (Inl err)) s) = conversationHistory s
      \<and> wsSent (step (TTSDone i (Inl err)) s) = wsSent s
      \<and> wsOpen (step (TTSDone i (Inl err)) s) = wsOpen s
      \<and> \<not> isAiSpeaking (step (TTSDone i (Inl err)) s)
      \<and> turns (step (TTSDone i (Inl err)) s) = (turns s)[i := Returned])
   \<and> (enabled (TTSDone i (Inl err)) (run es init) \<longrightarrow>
      (\<exists>reply. turns (run es init) ! i = AwaitTTS reply
         \<and> \<lparr>role = Assistant, content = reply\<rparr>
             \<in> set (conversationHistory (run es' (step (TTSDone i (Inl err)) (run es init))))))
   \<and> (trim t \<noteq> [] \<and> (e = LLMDone i (Inl err) \<or> e = TTSDone i (Inl err)) \<longrightarrow>
      turns (step (Data (Some t) True) (step e s)) = turns (step e s) @ [AwaitLLM])"
proof (intro conjI impI)
  assume "enabled (TTSDone i (Inl err)) (run es init)"
  then show "\<exists>reply. turns (run es init) ! i = AwaitTTS reply
         \<and> \<lparr>role = Assistant, content = reply\<rparr>
             \<in> set (conversationHistory (run es' (step (TTSDone i (Inl err)) (run es init))))"
    by (rule tts_failure_keeps_reply)
next
  assume "trim t \<noteq> [] \<and> (e = LLMDone i (Inl err) \<or> e = TTSDone i (Inl err))"
  then show "turns (step (Data (Some t) True) (step e s)) = turns (step e s) @ [AwaitLLM]"
    by (simp add: final_starts_turn)
qed (simp_all add: llm_failure tts_failure)

theorem collaborator_failure_witness:
  "enabled (LLMDone 0 (Inl CollaboratorError)) (run turnStarted init)
   \<and> conversationHistory (step (LLMDone 0 (Inl CollaboratorError)) (run turnStarted init))
       = [\<lparr>role = User, content = utteranceA\<rparr>]
   \<and> \<not> isAiSpeaking (step (LLMDone 0 (Inl CollaboratorError)) (run turnStarted init))
   \<and> enabled (TTSDone 0 (Inl CollaboratorError)) (run replyAppended init)
   \<and> conversationHistory (step (TTSDone 0 (Inl CollaboratorError)) (run replyAppended init))
       = [\<lparr>role = User, content = utteranceA\<rparr>, \<lparr>role = Assistant, content = replyA\<rparr>]
   \<and> wsSent (step (TTSDone 0 (Inl CollaboratorError)) (run replyAppended init))
       = [AudioContent [0x47]]
   \<and> \<lparr>role = Assistant, content = replyA\<rparr>
       \<in> set (conversationHistory
                (run [Data (Some utteranceB) True]
                   (step (TTSDone 0 (Inl CollaboratorError)) (run replyAppended init))))
   \<and> trim utteranceB \<noteq> []
   \<and> turns (step (Data (Some utteranceB) True)
               (step (TTSDone 0 (Inl CollaboratorError)) (run replyAppended init)))
       = [Returned, AwaitLLM]"
proof -
  note llm = collaborator_failure
    [where i = 0 and err = CollaboratorError and s = "run turnStarted init"]
  note tts = collaborator_failure
    [where i = 0 and err = CollaboratorError and s = "run replyAppended init"
       and es = replyAppended and es' = "[Data (Some utteranceB) True]"
       and t = utteranceB and e = "TTSDone 0 (Inl CollaboratorError)"]
  have e1: "enabled (LLMDone 0 (Inl CollaboratorError)) (run turnStarted init)"
    by (simp add: run_turnStarted)
  have e2: "enabled (TTSDone 0 (Inl CollaboratorError)) (run replyAppended init)"
    by (simp add: run_replyAppended)
  have t: "trim utteranceB \<noteq> []"
    by (simp add: utteranceB_def trim_def js_whitespace_def)
  from e1 llm
  have "conversationHistory (step (LLMDone 0 (Inl CollaboratorError)) (run turnStarted init))
          = conversationHistory (run turnStarted init)"
    and a2: "\<not> isAiSpeaking (step (LLMDone 0 (Inl CollaboratorError)) (run turnStarted init))"
    by blast+
  then have a1: "conversationHistory
        (step (LLMDone 0 (Inl CollaboratorError)) (run turnStarted init))
          = [\<lparr>role = User, content = utteranceA\<rparr>]"
    by (simp add: run_turnStarted)
  from e2 tts
  have "conversationHistory (step (TTSDone 0 (Inl CollaboratorError)) (run replyAppended init))
          = conversationHistory (run replyAppended init)"
    and "wsSent (step (TTSDone 0 (Inl CollaboratorError)) (run replyAppended init))
          = wsSent (run replyAppended init)"
    and u: "turns (step (TTSDone 0 (Inl CollaboratorError)) (run replyAppended init))
          = (turns (run replyAppended init))[0 := Returned]"
    by blast+
  then have b1: "conversationHistory
        (step (TTSDone 0 (Inl CollaboratorError)) (run replyAppended init))
          = [\<lparr>role = User, content = utteranceA\<rparr>, \<lparr>role = Assistant, content = replyA\<rparr>]"
    and b2: "wsSent (step (TTSDone 0 (Inl CollaboratorError)) (run replyAppended init))
          = [AudioContent [0x47]]"
    by (simp_all add: run_replyAppended)
  from e2 tts obtain reply where "turns (run replyAppended init) ! 0 = AwaitTTS reply"
    and "\<lparr>role = Assistant, content = reply\<rparr>
       \<in> set (conversationHistory
                (run [Data (Some utteranceB) True]
                   (step (TTSDone 0 (Inl CollaboratorError)) (run replyAppended init))))"
    by blast
  then have c: "\<lparr>role = Assistant, content = replyA\<rparr>
       \<in> set (conversationHistory
                (run [Data (Some utteranceB) True]
                   (step (TTSDone 0 (Inl CollaboratorError)) (run replyAppended init))))"
    by (simp add: run_replyAppended)
  from t tts
  have "turns (step (Data (Some utteranceB) True)
               (step (TTSDone 0 (Inl CollaboratorError)) (run replyAppended init)))
       = turns (step (TTSDone 0 (Inl CollaboratorError)) (run replyAppended init)) @ [AwaitLLM]"
    by blast
  then have d: "turns (step (Data (Some utteranceB) True)
               (step (TTSDone 0 (Inl CollaboratorError)) (run replyAppended init)))
       = [Returned, AwaitLLM]"
    unfolding u by (simp add: run_replyAppended)
  from e1 a1 a2 e2 b1 b2 c t d show ?thesis by blast
qed

subsection \<open>The greeting\<close>

lemma textless_step: "textless e \<Longrightarrow> step e s = s"
  by (cases e) (simp_all add: partial_falsy)

lemma textless_run: "list_all textless es \<Longrightarrow> run es s = s"
  by (induction es) (simp_all add: textless_step)

lemma greeting_alone:
  "run [GreetingTTSDone r, GreetingThen] init =
     init\<lparr>isAiSpeaking := False, greeting := GreetingOver,
          wsSent := (case r of Inl err \<Rightarrow> [] | Inr a \<Rightarrow> [AudioContent a])\<rparr>"
  by (cases r) (simp_all add: step_def init_def handler_defs)

lemma data_during_greeting:
  assumes "truthy t"
  shows "wsSent (step (Data t isFinal) init) = [StopPlaying]
         \<and> greeting (step (Data t isFinal) init) = GreetingAwaitTTS
         \<and> (\<not> isFinal \<longrightarrow> controller (step (Data t isFinal) init) = Interrupted)"
  using assms
  by (cases t) (auto simp: step_def init_def handler_defs controller_def Let_def)

text \<open>
  C6, as the code has it. The connection handler sets the flag and starts the greeting
  without waiting for it, and recognition results are handled while the greeting is
  being synthesized. If none of them has text until the greeting's \<^verbatim>\<open>then\<close> callback
  has run, that callback clears the flag: the controller is \<open>Idle\<close>, history and turns
  are empty, and only the greeting's audio (if its synthesis succeeded) has been sent. A
  result with text that arrives while the greeting is still being synthesized is handled
  at once as an interruption of the greeting: the stop-playing signal is sent, and a
  partial result leaves the controller in \<open>Interrupted\<close>.
\<close>

theorem greeting_then_idle:
  "(list_all textless es1 \<and> list_all textless es2 \<and> list_all textless es3 \<longrightarrow>
      run (es1 @ [GreetingTTSDone r] @ es2 @ [GreetingThen] @ es3) init =
        init\<lparr>isAiSpeaking := False, greeting := GreetingOver,
             wsSent := (case r of Inl err \<Rightarrow> [] | Inr a \<Rightarrow> [AudioContent a])\<rparr>
      \<and> controller (run (es1 @ [GreetingTTSDone r] @ es2 @ [GreetingThen] @ es3) init) = Idle)
   \<and> (list_all textless es1 \<and> truthy t \<longrightarrow>
      wsSent (run (es1 @ [Data t isFinal]) init) = [StopPlaying]
      \<and> greeting (run (es1 @ [Data t isFinal]) init) = GreetingAwaitTTS
      \<and> (\<not> isFinal \<longrightarrow> controller (run (es1 @ [Data t isFinal]) init) = Interrupted))"
proof (intro conjI impI)
  assume a: "list_all textless es1 \<and> list_all textless es2 \<and> list_all textless es3"
  then have "run (es1 @ [GreetingTTSDone r] @ es2 @ [GreetingThen] @ es3) init
       = run [GreetingTTSDone r, GreetingThen] init"
    by (simp add: run_append textless_run)
  then show r: "run (es1 @ [GreetingTTSDone r] @ es2 @ [GreetingThen] @ es3) init =
        init\<lparr>isAiSpeaking := False, greeting := GreetingOver,
             wsSent := (case r of Inl err \<Rightarrow> [] | Inr a \<Rightarrow> [AudioContent a])\<rparr>"
    by (simp only: greeting_alone)
  show "controller (run (es1 @ [GreetingTTSDone r] @ es2 @ [GreetingThen] @ es3) init) = Idle"
    unfolding r by (simp add: controller_def init_def)
next
  assume a: "list_all textless es1 \<and> truthy t"
  then have r: "run (es1 @ [Data t isFinal]) init = step (Data t isFinal) init"
    by (simp add: run_append textless_run)
  from a have t: "truthy t" by simp
  show "wsSent (run (es1 @ [Data t isFinal]) init) = [StopPlaying]"
    unfolding r using data_during_greeting [OF t] by simp
  show "greeting (run (es1 @ [Data t isFinal]) init) = GreetingAwaitTTS"
    unfolding r using data_during_greeting [OF t] by simp
  assume "\<not> isFinal"
  then show "controller (run (es1 @ [Data t isFinal]) init) = Interrupted"
    unfolding r using data_during_greeting [OF t] by simp
qed

theorem greeting_then_idle_witness:
  "list_all textless [Data None False] \<and> list_all textless [] \<and> list_all textless [Data (Some []) True]
   \<and> controller (run ([Data None False] @ [GreetingTTSDone (Inr [0x47])] @ [] @ [GreetingThen]
                        @ [Data (Some []) True]) init) = Idle
   \<and> truthy (Some utteranceA)
   \<and> wsSent (run ([Data None False] @ [Data (Some utteranceA) False]) init) = [StopPlaying]
   \<and> controller (run ([Data None False] @ [Data (Some utteranceA) False]) init) = Interrupted"
proof -
  have a: "list_all textless [Data None False] \<and> list_all textless []
           \<and> list_all textless [Data (Some []) True]"
    by simp
  have b: "list_all textless [Data None False] \<and> truthy (Some utteranceA)"
    by (simp add: utteranceA_def)
  note g = greeting_then_idle
    [where ?es1.0 = "[Data None False]" and ?es2.0 = "[]" and ?es3.0 = "[Data (Some []) True]"
       and r = "Inr [0x47]" and t = "Some utteranceA" and isFinal = False]
  from a g
  have c: "controller (run ([Data None False] @ [GreetingTTSDone (Inr [0x47])] @ [] @ [GreetingThen]
                        @ [Data (Some []) True]) init) = Idle"
    by blast
  from b g
  have d: "wsSent (run ([Data None False] @ [Data (Some utteranceA) False]) init) = [StopPlaying]"
    and e: "controller (run ([Data None False] @ [Data (Some utteranceA) False]) init) = Interrupted"
    by blast+
  from a b c d e show ?thesis by blast
qed

text \<open>
  C6 as it is stated fails. In \<open>greetingRace\<close> the caller's "hi" is final before the
  greeting has been synthesized: it is handled in \<open>AgentSpeaking\<close>, not \<open>Idle\<close>, it is
  pushed to the history and turn 0 starts while the greeting is still pending. When the
  greeting then completes, its \<^verbatim>\<open>then\<close> callback finds the flag set (by turn 0) and
  clears it, and turn 0 drops the language model's reply at its first checkpoint.
\<close>

theorem greeting_not_first:
  "feasible greetingRace init
   \<and> controller init = AgentSpeaking
   \<and> greeting init = GreetingAwaitTTS
   \<and> greeting (run [Data (Some utteranceA) True] init) = GreetingAwaitTTS
   \<and> conversationHistory (run [Data (Some utteranceA) True] init)
       = [\<lparr>role = User, content = utteranceA\<rparr>]
   \<and> turns (run [Data (Some utteranceA) True] init) = [AwaitLLM]
   \<and> isAiSpeaking (run [Data (Some utteranceA) True, GreetingTTSDone (Inr [0x47])] init)
   \<and> \<not> isAiSpeaking
         (run [Data (Some utteranceA) True, GreetingTTSDone (Inr [0x47]), GreetingThen] init)
   \<and> turns (run [Data (Some utteranceA) True, GreetingTTSDone (Inr [0x47]), GreetingThen] init)
       = [AwaitLLM]
   \<and> turns (run greetingRace init) = [Returned]
   \<and> conversationHistory (run greetingRace init) = [\<lparr>role = User, content = utteranceA\<rparr>]"
  by (simp add: eval_defs controller_def)

subsection \<open>The checkpoints\<close>

text \<open>
  A turn that resumes while the flag is cleared returns without pushing or sending
  anything, and the flag stays cleared until a final result starts a new turn.
\<close>

lemma checkpoint_A:
  "\<not> isAiSpeaking s \<Longrightarrow> enabled (LLMDone i r) s \<Longrightarrow>
   step (LLMDone i r) s = s\<lparr>turns := (turns s)[i := Returned]\<rparr>"
  by (cases r) (simp_all add: step_def resumeLLM_def)

lemma checkpoint_B:
  "\<not> isAiSpeaking s \<Longrightarrow> enabled (TTSDone i r) s \<Longrightarrow>
   step (TTSDone i r) s = s\<lparr>turns := (turns s)[i := Returned]\<rparr>"
  by (cases r) (simp_all add: step_def resumeTTS_def)

lemma cancelled_until_final:
  "list_all notFinal es \<Longrightarrow> \<not> isAiSpeaking s \<Longrightarrow>
   \<not> isAiSpeaking (run es s) \<and> conversationHistory (run es s) = conversationHistory s"
proof (induction es arbitrary: s)
  case Nil
  then show ?case by simp
next
  case (Cons e es)
  then have e: "notFinal e" and es: "list_all notFinal es" by simp_all
  from notFinal_silent [OF e Cons.prems(2)] have 1: "\<not> isAiSpeaking (step e s)" by simp
  have 2: "conversationHistory (step e s) = conversationHistory s"
    using e Cons.prems(2)
    by (cases e) (auto simp: step_def handler_defs Let_def split: option.splits sum.splits)
  from Cons.IH [OF es 1] 2 show ?case by simp
qed

text \<open>
  C1 fails on the code. \<open>isAiSpeaking\<close> is one flag for the whole connection, not one per
  turn: the final result that interrupts turn 0 clears it and, in the same handler,
  \<^verbatim>\<open>processTranscript\<close> sets it again for turn 1. When the language model answers turn 0,
  the checkpoint finds the flag set and turn 0 goes on. In \<open>overlapTrace\<close> both turns wait for
  their synthesis at the same time, both replies are in the history and both audio
  payloads are sent.
\<close>

theorem superseded_turn_overlaps:
  "feasible (overlapTrace @ [TTSDone 0 (Inr [0x01]), TTSDone 1 (Inr [0x02])]) init
   \<and> turns (run overlapTrace init) = [AwaitTTS replyA, AwaitTTS replyB]
   \<and> activePastStage1 (run overlapTrace init) = 2
   \<and> conversationHistory
        (run (overlapTrace @ [TTSDone 0 (Inr [0x01]), TTSDone 1 (Inr [0x02])]) init)
       = [\<lparr>role = User, content = utteranceA\<rparr>, \<lparr>role = User, content = utteranceB\<rparr>,
          \<lparr>role = Assistant, content = replyA\<rparr>, \<lparr>role = Assistant, content = replyB\<rparr>]
   \<and> wsSent (run (overlapTrace @ [TTSDone 0 (Inr [0x01]), TTSDone 1 (Inr [0x02])]) init)
       = [AudioContent [0x47], StopPlaying, AudioContent [0x01], AudioContent [0x02]]"
  by (simp add: eval_defs activePastStage1_def)

text \<open>
  C2 fails on the code, for the same reason. In \<open>supersededA\<close> turn 0 is cancelled while
  it waits for the language model (the controller is \<open>Interrupted\<close> and the stop signal
  has been sent), the caller's utterance becomes final and starts turn 1, and turn 0 then
  pushes its reply and sends its audio. In \<open>supersededB\<close> turn 0 is cancelled while it
  waits for the synthesis, and sends its audio all the same.
\<close>

theorem cancelled_turn_not_suppressed:
  "feasible supersededA init
   \<and> controller (run (turnStarted @ [Data (Some utteranceB) False]) init) = Interrupted
   \<and> wsSent (run (turnStarted @ [Data (Some utteranceB) False]) init)
       = [AudioContent [0x47], StopPlaying]
   \<and> turns (run (turnStarted @ [Data (Some utteranceB) False]) init) = [AwaitLLM]
   \<and> conversationHistory (run supersededA init)
       = [\<lparr>role = User, content = utteranceA\<rparr>, \<lparr>role = User, content = utteranceB\<rparr>,
          \<lparr>role = Assistant, content = replyA\<rparr>]
   \<and> wsSent (run supersededA init) = [AudioContent [0x47], StopPlaying, AudioContent [0x01]]
   \<and> feasible supersededB init
   \<and> turns (run replyAppended init) = [AwaitTTS replyA]
   \<and> wsSent (run (replyAppended @ [Data (Some utteranceB) True]) init)
       = [AudioContent [0x47], StopPlaying]
   \<and> turns (run (replyAppended @ [Data (Some utteranceB) True]) init)
       = [AwaitTTS replyA, AwaitLLM]
   \<and> wsSent (run supersededB init) = [AudioContent [0x47], StopPlaying, AudioContent [0x01]]"
  by (simp add: eval_defs controller_def)

end
